theory Spec2Isabelle
  imports Main
begin

section \<open>External capabilities and the data they exchange\<close>

text \<open>
  The three source files drive two capabilities that live outside of them: the judge
  pipeline (\<^verbatim>\<open>pipeline.run\<close>) and the text generator
  (\<^verbatim>\<open>client.chat.completions.create\<close>). Both may raise, both may answer
  differently on every call. A call therefore takes the state \<open>'w\<close> of the outside
  world and returns the next one together with its outcome.
\<close>

datatype 'a outcome = Raised | Returned 'a

type_synonym input_record = "(string \<times> string) list"

type_synonym result_map = "string \<rightharpoonup> string"

text \<open>\<^verbatim>\<open>result.get(key, default)\<close> on a dict.\<close>

definition dict_get :: "result_map \<Rightarrow> string \<Rightarrow> string \<Rightarrow> string" where
  "dict_get m k d = (case m k of None \<Rightarrow> d | Some v \<Rightarrow> v)"

section \<open>Pipelines as the source composes them\<close>

text \<open>
  A \<^verbatim>\<open>CategoricalJudgeUnit(name, categories, explanation)\<close>. The prompt template
  is handed to the external model as it is and plays no part below; it is left out.
\<close>

record judge_unit =
  unit_kind :: string
  unit_name :: string
  categories :: "string list"
  produces_explanation :: bool

definition CategoricalJudgeUnit :: "string \<Rightarrow> string list \<Rightarrow> bool \<Rightarrow> judge_unit" where
  "CategoricalJudgeUnit name cats expl =
     \<lparr>unit_kind = ''CategoricalJudge'', unit_name = name, categories = cats,
      produces_explanation = expl\<rparr>"

datatype stage = Unit judge_unit | Layer "judge_unit list"

record pipeline =
  pipeline_name :: string
  stages :: "stage list"

definition Pipeline :: "string \<Rightarrow> pipeline" where
  "Pipeline name = \<lparr>pipeline_name = name, stages = []\<rparr>"

text \<open>\<^verbatim>\<open>pipeline >> stage\<close>: append a stage.\<close>

definition then_stage :: "pipeline \<Rightarrow> stage \<Rightarrow> pipeline" where
  "then_stage p st = p\<lparr>stages := stages p @ [st]\<rparr>"

text \<open>\<^verbatim>\<open>ContentQualityControl.create_pipeline\<close> (llm_quality_control.py).\<close>

definition quality_judge :: judge_unit where
  "quality_judge = CategoricalJudgeUnit ''QualityJudge'' [''pass'', ''revise''] True"

definition create_pipeline :: pipeline where
  "create_pipeline = then_stage (Pipeline ''QualityControl'') (Layer [quality_judge])"

text \<open>\<^verbatim>\<open>QualityControlEvaluator.create_evaluation_pipeline\<close>
  (quality_control_evaluator.py).\<close>

definition meta_judge :: judge_unit where
  "meta_judge =
     CategoricalJudgeUnit ''MetaJudge'' [''reliable'', ''questionable'', ''failure''] True"

definition failure_analyzer :: judge_unit where
  "failure_analyzer =
     CategoricalJudgeUnit ''FailureAnalyzer'' [''systematic'', ''contextual'', ''random''] True"

definition create_evaluation_pipeline :: pipeline where
  "create_evaluation_pipeline =
     then_stage (then_stage (Pipeline ''QCEvaluator'') (Layer [meta_judge]))
       (Layer [failure_analyzer])"

text \<open>\<^verbatim>\<open>create_test_generation_pipeline\<close> (education_test_generator.py); the unit
  is appended bare, not inside a layer.\<close>

definition generator :: judge_unit where
  "generator = CategoricalJudgeUnit ''Generator'' [''valid'', ''invalid''] True"

definition create_test_generation_pipeline :: pipeline where
  "create_test_generation_pipeline = then_stage (Pipeline ''TestGenerator'') (Unit generator)"

section \<open>The pipeline executor\<close>

text \<open>
  Modelled from the spec: the Pipeline Executor \<^verbatim>\<open>run(pipeline, input_record,
  graceful, max_workers)\<close> of section 4.2, which the source imports from the
  \<^verbatim>\<open>verdict\<close> package and which is not among the source files. Only the mode the
  callers use is modelled: \<^verbatim>\<open>graceful=True, max_workers=1\<close>.
  \<^item> Stages run strictly in declared order, the units of a layer in declared order.
  \<^item> Every unit of a stage sees the same context: the input record and the explanations
    of the immediately preceding stage (none for the first stage).
  \<^item> A unit is the contract \<^verbatim>\<open>evaluate(context) -> (label, explanation) | Failure\<close>
    of section 4.1; it is a parameter here, since it wraps the external model.
  \<^item> A unit that fails is recorded in the bookkeeping under its key and the run goes on.
  \<^item> A unit's label and explanation are stored under its key with the suffix
    \<^verbatim>\<open>_choice\<close> and \<^verbatim>\<open>_explanation\<close>.
  \<^item> The key of a unit is built from the pipeline name, the position of the stage, the
    stage and the unit (its kind and name). The spec gives these ingredients, not the
    separators or the path between them, and the code that builds keys is in the package:
    the key scheme is a parameter.
\<close>

datatype unit_result = Failure | Judged string string

record unit_context =
  source :: input_record
  previous :: "string list"

type_synonym 'w judge = "'w \<Rightarrow> judge_unit \<Rightarrow> unit_context \<Rightarrow> unit_result \<times> 'w"

type_synonym key_scheme = "string \<Rightarrow> nat \<Rightarrow> stage \<Rightarrow> judge_unit \<Rightarrow> string"

record execution_result =
  entries :: result_map
  ran_ok :: "string list"
  ran_failed :: "string list"

definition record_unit :: "string \<Rightarrow> judge_unit \<Rightarrow> unit_result \<Rightarrow> execution_result \<Rightarrow> execution_result" where
  "record_unit base u out res =
     (case out of
        Failure \<Rightarrow> res\<lparr>ran_failed := ran_failed res @ [base]\<rparr>
      | Judged label expl \<Rightarrow>
          res\<lparr>entries :=
                (if produces_explanation u
                 then (entries res)(base @ ''_choice'' \<mapsto> label, base @ ''_explanation'' \<mapsto> expl)
                 else (entries res)(base @ ''_choice'' \<mapsto> label)),
              ran_ok := ran_ok res @ [base]\<rparr>)"

definition explanation_of :: "unit_result \<Rightarrow> string list" where
  "explanation_of out = (case out of Failure \<Rightarrow> [] | Judged label expl \<Rightarrow> [expl])"

fun run_units ::
  "key_scheme \<Rightarrow> 'w judge \<Rightarrow> string \<Rightarrow> nat \<Rightarrow> stage \<Rightarrow> unit_context \<Rightarrow> judge_unit list \<Rightarrow>
   execution_result \<times> string list \<times> 'w \<Rightarrow> execution_result \<times> string list \<times> 'w" where
  "run_units keys judge pname i st ctx [] acc = acc"
| "run_units keys judge pname i st ctx (u # us) (res, expls, w) =
     (case judge w u ctx of
        (out, w') \<Rightarrow>
          run_units keys judge pname i st ctx us
            (record_unit (keys pname i st u) u out res, expls @ explanation_of out, w'))"

fun stage_units :: "stage \<Rightarrow> judge_unit list" where
  "stage_units (Unit u) = [u]"
| "stage_units (Layer us) = us"

fun run_stages ::
  "key_scheme \<Rightarrow> 'w judge \<Rightarrow> string \<Rightarrow> input_record \<Rightarrow> nat \<Rightarrow> stage list \<Rightarrow>
   execution_result \<times> string list \<times> 'w \<Rightarrow> execution_result \<times> 'w" where
  "run_stages keys judge pname src i [] (res, prev, w) = (res, w)"
| "run_stages keys judge pname src i (st # sts) (res, prev, w) =
     run_stages keys judge pname src (Suc i) sts
       (run_units keys judge pname i st \<lparr>source = src, previous = prev\<rparr>
          (stage_units st) (res, [], w))"

definition empty_result :: execution_result where
  "empty_result = \<lparr>entries = Map.empty, ran_ok = [], ran_failed = []\<rparr>"

definition run ::
  "key_scheme \<Rightarrow> 'w judge \<Rightarrow> pipeline \<Rightarrow> 'w \<Rightarrow> input_record \<Rightarrow> execution_result \<times> 'w" where
  "run keys judge p w src =
     run_stages keys judge (pipeline_name p) src 0 (stages p) (empty_result, [], w)"

text \<open>What a caller of \<^verbatim>\<open>result, _ = pipeline.run(...)\<close> receives from this executor:
  the result map; the executor in graceful mode does not raise.\<close>

definition run_of ::
  "key_scheme \<Rightarrow> 'w judge \<Rightarrow> pipeline \<Rightarrow> 'w \<Rightarrow> input_record \<Rightarrow> result_map outcome \<times> 'w" where
  "run_of keys judge p w src =
     (case run keys judge p w src of (res, w') \<Rightarrow> (Returned (entries res), w'))"

section \<open>ContentQualityControl (llm_quality_control.py)\<close>

text \<open>
  The object \<^verbatim>\<open>self\<close>: its two configuration fields and the two bound methods
  it calls on its collaborators, \<^verbatim>\<open>self.pipeline.run\<close> and
  \<^verbatim>\<open>self.client.chat.completions.create\<close>. The latter returns
  \<^verbatim>\<open>response.choices[0].message.content\<close>, which may be \<^verbatim>\<open>None\<close>.
\<close>

record 'w ContentQualityControl =
  content_type :: string
  max_iterations :: int
  pipeline_run :: "'w \<Rightarrow> input_record \<Rightarrow> result_map outcome \<times> 'w"
  client_create :: "'w \<Rightarrow> string \<Rightarrow> string option outcome \<times> 'w"

text \<open>\<^verbatim>\<open>__init__\<close>, with the executor above as the pipeline's \<^verbatim>\<open>run\<close>.\<close>

definition init ::
  "key_scheme \<Rightarrow> 'w judge \<Rightarrow> ('w \<Rightarrow> string \<Rightarrow> string option outcome \<times> 'w) \<Rightarrow> string \<Rightarrow> int \<Rightarrow>
   'w ContentQualityControl" where
  "init keys judge client ctype max_iter =
     \<lparr>content_type = ctype, max_iterations = max_iter,
      pipeline_run = run_of keys judge create_pipeline, client_create = client\<rparr>"

text \<open>The dict \<^verbatim>\<open>{'verdict': ..., 'explanation': ..., 'content': ...}\<close>.\<close>

record qc_result =
  verdict :: string
  explanation :: string
  content :: string

definition improvement_prompt :: "string \<Rightarrow> string \<Rightarrow> string" where
  "improvement_prompt original_content feedback =
     ''\<newline>'' @
     ''        Improve this educational content based on the reviewer's feedback:\<newline>'' @
     ''\<newline>'' @
     ''        Original Content:\<newline>'' @
     ''        '' @ original_content @ ''\<newline>'' @
     ''\<newline>'' @
     ''        Reviewer's Feedback:\<newline>'' @
     ''        '' @ feedback @ ''\<newline>'' @
     ''\<newline>'' @
     ''        Requirements:\<newline>'' @
     ''        - Fix all scientific inaccuracies\<newline>'' @
     ''        - Add missing key concepts\<newline>'' @
     ''        - Maintain grade-appropriate language\<newline>'' @
     ''        - Address all identified issues\<newline>'' @
     ''        - Keep the same format but improve the content\<newline>'' @
     ''\<newline>'' @
     ''        Provide the improved version while maintaining the same structure.\<newline>'' @
     ''        ''"

text \<open>\<^verbatim>\<open>generate_improved_content\<close>: any exception of the call is caught and
  turned into \<^verbatim>\<open>None\<close>.\<close>

definition generate_improved_content ::
  "'w ContentQualityControl \<Rightarrow> 'w \<Rightarrow> string \<Rightarrow> string \<Rightarrow> string option \<times> 'w" where
  "generate_improved_content self w original_content feedback =
     (case client_create self w (improvement_prompt original_content feedback) of
        (Raised, w') \<Rightarrow> (None, w')
      | (Returned c, w') \<Rightarrow> (c, w'))"

definition base_path :: string where
  "base_path = ''QualityControl_root.block.layer[0].unit[CategoricalJudge QualityJudge]''"

text \<open>\<^verbatim>\<open>Schema.of(content=..., requirements=..., content_type=...)\<close>.\<close>

definition qc_schema :: "string \<Rightarrow> string \<Rightarrow> string \<Rightarrow> input_record" where
  "qc_schema c r t = [(''content'', c), (''requirements'', r), (''content_type'', t)]"

text \<open>\<^verbatim>\<open>evaluate_content\<close>: \<^verbatim>\<open>not verdict or not explanation\<close> is true of an
  empty string; any exception of the run is caught and turned into \<^verbatim>\<open>None\<close>.\<close>

definition evaluate_content ::
  "'w ContentQualityControl \<Rightarrow> 'w \<Rightarrow> string \<Rightarrow> string \<Rightarrow> qc_result option \<times> 'w" where
  "evaluate_content self w c requirements =
     (case pipeline_run self w (qc_schema c requirements (content_type self)) of
        (Raised, w') \<Rightarrow> (None, w')
      | (Returned result, w') \<Rightarrow>
          (let v = dict_get result (base_path @ ''_choice'') [];
               e = dict_get result (base_path @ ''_explanation'') []
           in if v = [] \<or> e = [] then (None, w')
              else (Some \<lparr>verdict = v, explanation = e, content = c\<rparr>, w')))"

subsection \<open>The refinement loop\<close>

text \<open>
  The locals of \<^verbatim>\<open>improve_content\<close>. \<open>last_result\<close> is the local
  \<^verbatim>\<open>result\<close>, \<open>None\<close> while it is unbound. \<open>events\<close> is not in the source: it
  lists, in order, the calls the loop has made to \<^verbatim>\<open>evaluate_content\<close> (with the
  content submitted) and to \<^verbatim>\<open>generate_improved_content\<close> (with the content
  and feedback submitted and what came back), so that calls can be counted.
\<close>

datatype event = Evaluate string | Regenerate string string "string option"

record 'w loop_state =
  iterations :: int
  current_content :: string
  last_result :: "qc_result option"
  world :: 'w
  events :: "event list"

datatype py_error = UnboundLocalError

datatype 'w cycle = Return "qc_result option" "'w loop_state" | Continue "'w loop_state"

text \<open>One execution of the body of \<^verbatim>\<open>while iterations < self.max_iterations\<close>.
  A failed evaluation binds \<^verbatim>\<open>result\<close> to \<^verbatim>\<open>None\<close> and returns at once,
  so the local is only recorded when it holds a dict.\<close>

definition loop_body :: "'w ContentQualityControl \<Rightarrow> string \<Rightarrow> 'w loop_state \<Rightarrow> 'w cycle" where
  "loop_body self requirements s =
     (let s1 = s\<lparr>iterations := iterations s + 1\<rparr> in
      case evaluate_content self (world s1) (current_content s1) requirements of
        (r, w1) \<Rightarrow>
          (let s2 = s1\<lparr>world := w1, events := events s1 @ [Evaluate (current_content s1)]\<rparr> in
           case r of
             None \<Rightarrow> Return None s2
           | Some res \<Rightarrow>
               (let s3 = s2\<lparr>last_result := Some res\<rparr> in
                if verdict res = ''pass'' then Return (Some res) s3
                else
                  (case generate_improved_content self (world s3) (current_content s3)
                          (explanation res) of
                     (improved_content, w2) \<Rightarrow>
                       (let s4 = s3\<lparr>world := w2,
                                    events := events s3 @
                                      [Regenerate (current_content s3) (explanation res)
                                         improved_content]\<rparr> in
                        case improved_content of
                          None \<Rightarrow> Return None s4
                        | Some new_content \<Rightarrow>
                            if new_content = [] then Return None s4
                            else Continue (s4\<lparr>current_content := new_content\<rparr>))))))"

function improve_loop ::
  "'w ContentQualityControl \<Rightarrow> string \<Rightarrow> 'w loop_state \<Rightarrow>
   (py_error + qc_result option) \<times> 'w loop_state" where
  "improve_loop self requirements s =
     (if iterations s < max_iterations self then
        (case loop_body self requirements s of
           Return r s' \<Rightarrow> (Inr r, s')
         | Continue s' \<Rightarrow> improve_loop self requirements s')
      else
        (case last_result s of
           None \<Rightarrow> (Inl UnboundLocalError, s)
         | Some r \<Rightarrow> (Inr (Some r), s)))"
  by pat_completeness auto
termination
proof (relation "measure (\<lambda>(self, requirements, s). nat (max_iterations self - iterations s))")
  show "wf (measure (\<lambda>(self :: 'w ContentQualityControl, requirements :: string,
      s :: 'w loop_state). nat (max_iterations self - iterations s)))"
    by simp
next
  fix self :: "'w ContentQualityControl" and requirements :: string
    and s s' :: "'w loop_state"
  assume lt: "iterations s < max_iterations self"
    and body: "loop_body self requirements s = Continue s'"
  from body have "iterations s' = iterations s + 1"
    by (auto simp: loop_body_def Let_def split: prod.splits option.splits if_splits)
  with lt show "((self, requirements, s'), (self, requirements, s))
      \<in> measure (\<lambda>(self, requirements, s). nat (max_iterations self - iterations s))"
    by simp
qed

declare improve_loop.simps [simp del]

definition initial_state :: "string \<Rightarrow> 'w \<Rightarrow> 'w loop_state" where
  "initial_state c w =
     \<lparr>iterations = 0, current_content = c, last_result = None, world = w, events = []\<rparr>"

definition improve_content ::
  "'w ContentQualityControl \<Rightarrow> string \<Rightarrow> string \<Rightarrow> 'w \<Rightarrow>
   (py_error + qc_result option) \<times> 'w loop_state" where
  "improve_content self c requirements w = improve_loop self requirements (initial_state c w)"

text \<open>The states in which a run that started in \<open>s0\<close> tests the loop condition: \<open>s0\<close>
  itself, and the state every body leaves that did not return.\<close>

inductive reachable ::
  "'w ContentQualityControl \<Rightarrow> string \<Rightarrow> 'w loop_state \<Rightarrow> 'w loop_state \<Rightarrow> bool"
  for self :: "'w ContentQualityControl" and requirements :: string and s0 :: "'w loop_state" where
  start: "reachable self requirements s0 s0"
| continue: "reachable self requirements s0 s \<Longrightarrow> iterations s < max_iterations self \<Longrightarrow>
     loop_body self requirements s = Continue s' \<Longrightarrow> reachable self requirements s0 s'"

text \<open>Counting the calls in the log.\<close>

fun is_evaluate :: "event \<Rightarrow> bool" where
  "is_evaluate (Evaluate c) = True"
| "is_evaluate (Regenerate c f out) = False"

definition evaluations :: "event list \<Rightarrow> nat" where
  "evaluations es = length (filter is_evaluate es)"

definition regenerations :: "event list \<Rightarrow> nat" where
  "regenerations es = length (filter (\<lambda>e. \<not> is_evaluate e) es)"

text \<open>
  The shape of a log that starts in a state with current content \<open>cur\<close>: every cycle
  submits the current content to the judge; a regeneration of that content may follow;
  a further cycle follows only a regeneration that returned non-empty content, and that
  cycle submits the regenerated content.
\<close>

fun regenerated_between :: "string \<Rightarrow> event list \<Rightarrow> bool" where
  "regenerated_between cur [] = True"
| "regenerated_between cur [Evaluate c] = (c = cur)"
| "regenerated_between cur [Evaluate c, Regenerate c' f out] = (c = cur \<and> c' = cur)"
| "regenerated_between cur (Evaluate c # Regenerate c' f out # e # es) =
     (c = cur \<and> c' = cur \<and>
      (case out of None \<Rightarrow> False | Some n \<Rightarrow> n \<noteq> [] \<and> regenerated_between n (e # es)))"
| "regenerated_between cur es = False"

text \<open>No two evaluations next to each other in the log.\<close>

fun no_double_evaluate :: "event list \<Rightarrow> bool" where
  "no_double_evaluate (Evaluate c # Evaluate c' # es) = False"
| "no_double_evaluate (e # es) = no_double_evaluate es"
| "no_double_evaluate [] = True"

section \<open>QualityControlEvaluator (quality_control_evaluator.py)\<close>

record 'w QualityControlEvaluator =
  evaluation_run :: "'w \<Rightarrow> input_record \<Rightarrow> result_map outcome \<times> 'w"

definition evaluator_init :: "key_scheme \<Rightarrow> 'w judge \<Rightarrow> 'w QualityControlEvaluator" where
  "evaluator_init keys judge =
     \<lparr>evaluation_run = run_of keys judge create_evaluation_pipeline\<rparr>"

text \<open>The returned dict
  \<^verbatim>\<open>{'meta_evaluation': {'verdict', 'explanation'}, 'failure_analysis': {'type', 'explanation'}}\<close>,
  one field for each leaf.\<close>

record qc_system_report =
  meta_evaluation_verdict :: string
  meta_evaluation_explanation :: string
  failure_analysis_type :: string
  failure_analysis_explanation :: string

definition evaluator_base_path :: string where
  "evaluator_base_path = ''QCEvaluator_root.block.layer''"

definition evaluator_schema :: "string \<Rightarrow> string \<Rightarrow> string \<Rightarrow> string \<Rightarrow> input_record" where
  "evaluator_schema c qc_assessment qc_decision requirements =
     [(''content'', c), (''qc_assessment'', qc_assessment), (''qc_decision'', qc_decision),
      (''requirements'', requirements)]"

definition evaluate_qc_system ::
  "'w QualityControlEvaluator \<Rightarrow> 'w \<Rightarrow> string \<Rightarrow> string \<Rightarrow> string \<Rightarrow> string \<Rightarrow>
   qc_system_report option \<times> 'w" where
  "evaluate_qc_system self w c qc_assessment qc_decision requirements =
     (case evaluation_run self w (evaluator_schema c qc_assessment qc_decision requirements) of
        (Raised, w') \<Rightarrow> (None, w')
      | (Returned result, w') \<Rightarrow>
          (let meta_verdict = dict_get result
                 (evaluator_base_path @ ''[0].unit[CategoricalJudge MetaJudge]_choice'') [];
               meta_explanation = dict_get result
                 (evaluator_base_path @ ''[0].unit[CategoricalJudge MetaJudge]_explanation'') [];
               failure_type = dict_get result
                 (evaluator_base_path @ ''[1].unit[CategoricalJudge FailureAnalyzer]_choice'') [];
               failure_explanation = dict_get result
                 (evaluator_base_path @ ''[1].unit[CategoricalJudge FailureAnalyzer]_explanation'') []
           in (Some \<lparr>meta_evaluation_verdict = meta_verdict,
                      meta_evaluation_explanation = meta_explanation,
                      failure_analysis_type = failure_type,
                      failure_analysis_explanation = failure_explanation\<rparr>, w')))"

text \<open>What a unit outcome leaves behind for a caller who reads with the default
  \<^verbatim>\<open>''\<close>.\<close>

fun label_of :: "unit_result \<Rightarrow> string" where
  "label_of Failure = []"
| "label_of (Judged label expl) = label"

fun text_of :: "unit_result \<Rightarrow> string" where
  "text_of Failure = []"
| "text_of (Judged label expl) = expl"

section \<open>generate_test_case (education_test_generator.py)\<close>

record generated_case =
  scenario :: string
  reasoning :: string
  test_case :: string

definition the_scenario :: string where
  "the_scenario =
     ''Create a math problem that tests fraction addition but has subtle conceptual gaps''"

definition key_base :: string where
  "key_base = ''TestGenerator_root.block.unit[CategoricalJudge Generator]''"

definition generate_test_case ::
  "(pipeline \<Rightarrow> 'w \<Rightarrow> input_record \<Rightarrow> result_map outcome \<times> 'w) \<Rightarrow> 'w \<Rightarrow>
   generated_case option \<times> 'w" where
  "generate_test_case pipeline_run_method w =
     (case pipeline_run_method create_test_generation_pipeline w [(''scenario'', the_scenario)] of
        (Raised, w') \<Rightarrow> (None, w')
      | (Returned result, w') \<Rightarrow>
          (let e = dict_get result (key_base @ ''_explanation'') [];
               ch = dict_get result (key_base @ ''_choice'') []
           in if e \<noteq> [] \<and> ch \<noteq> []
              then (Some \<lparr>scenario = the_scenario, reasoning = e, test_case = ch\<rparr>, w')
              else (None, w')))"

section \<open>Test doubles\<close>

text \<open>A judge double whose world is the number of runs so far: run number \<open>n\<close> answers
  with entry \<open>n\<close> of a script of (label, explanation) pairs and raises once the script is
  used up. A pipeline double that answers the same on every run. A generator double that
  always returns the same text, and one that always raises.\<close>

definition judged :: "string \<Rightarrow> string \<Rightarrow> result_map" where
  "judged label expl =
     [base_path @ ''_choice'' \<mapsto> label, base_path @ ''_explanation'' \<mapsto> expl]"

definition scripted_run :: "(string \<times> string) list \<Rightarrow> nat \<Rightarrow> input_record \<Rightarrow> result_map outcome \<times> nat" where
  "scripted_run script n src =
     (if n < length script then Returned (judged (fst (script ! n)) (snd (script ! n)))
      else Raised, Suc n)"

definition constant_run :: "result_map outcome \<Rightarrow> nat \<Rightarrow> input_record \<Rightarrow> result_map outcome \<times> nat" where
  "constant_run out n src = (out, Suc n)"

definition constant_client :: "string option outcome \<Rightarrow> nat \<Rightarrow> string \<Rightarrow> string option outcome \<times> nat" where
  "constant_client out n prompt = (out, n)"

definition qc_double ::
  "int \<Rightarrow> (nat \<Rightarrow> input_record \<Rightarrow> result_map outcome \<times> nat) \<Rightarrow> string option outcome \<Rightarrow>
   nat ContentQualityControl" where
  "qc_double max_iter run_method out =
     \<lparr>content_type = ''text'', max_iterations = max_iter, pipeline_run = run_method,
      client_create = constant_client out\<rparr>"

text \<open>The two judge doubles of the refinement-loop tests: one that always answers
  ``revise'', one that answers ``revise'' and then ``pass''; the generator double returns
  the same non-empty text every time.\<close>

definition revise_double :: "nat ContentQualityControl" where
  "revise_double = qc_double 3 (constant_run (Returned (judged ''revise'' ''too short'')))
     (Returned (Some ''longer draft''))"

definition revise_then_pass_double :: "nat ContentQualityControl" where
  "revise_then_pass_double =
     qc_double 5 (scripted_run [(''revise'', ''too short''), (''pass'', ''complete'')])
       (Returned (Some ''longer draft''))"

text \<open>A unit double that answers by the unit's name alone.\<close>

definition named_judge :: "(string \<times> unit_result) list \<Rightarrow> nat judge" where
  "named_judge answers n u ctx =
     (case map_of answers (unit_name u) of None \<Rightarrow> (Failure, Suc n) | Some out \<Rightarrow> (out, Suc n))"

text \<open>Two key scheme doubles. The first answers, for each unit of the source, with the
  key its caller wrote out, and with pipeline and unit name for any other unit; the second
  joins pipeline name and unit name with a dot.\<close>

definition literal_keys :: key_scheme where
  "literal_keys pname i st u =
     (if unit_name u = ''QualityJudge'' then base_path
      else if unit_name u = ''MetaJudge''
        then evaluator_base_path @ ''[0].unit[CategoricalJudge MetaJudge]''
      else if unit_name u = ''FailureAnalyzer''
        then evaluator_base_path @ ''[1].unit[CategoricalJudge FailureAnalyzer]''
      else if unit_name u = ''Generator'' then key_base
      else pname @ ''_'' @ unit_name u)"

definition dotted_keys :: key_scheme where
  "dotted_keys pname i st u = pname @ ''.'' @ unit_name u"

text \<open>Unit doubles for the quality pipeline and for the two-stage evaluation
  pipeline; the latter rates the assessment ``reliable''.\<close>

definition pass_judge :: "nat judge" where
  "pass_judge = named_judge [(''QualityJudge'', Judged ''pass'' ''complete'')]"

definition reliable_judge :: "nat judge" where
  "reliable_judge = named_judge
     [(''MetaJudge'', Judged ''reliable'' ''sound''),
      (''FailureAnalyzer'', Judged ''random'' ''no pattern'')]"

section \<open>The loop, one step at a time\<close>

lemma improve_loop_exit:
  "\<not> iterations s < max_iterations self \<Longrightarrow>
   improve_loop self requirements s =
     (case last_result s of None \<Rightarrow> (Inl UnboundLocalError, s) | Some r \<Rightarrow> (Inr (Some r), s))"
  by (subst improve_loop.simps) simp

lemma improve_loop_Return:
  "iterations s < max_iterations self \<Longrightarrow> loop_body self requirements s = Return r s' \<Longrightarrow>
   improve_loop self requirements s = (Inr r, s')"
  by (subst improve_loop.simps) simp

lemma improve_loop_Continue:
  "iterations s < max_iterations self \<Longrightarrow> loop_body self requirements s = Continue s' \<Longrightarrow>
   improve_loop self requirements s = improve_loop self requirements s'"
  by (subst improve_loop.simps) simp

lemma loop_body_Continue:
  assumes "loop_body self requirements s = Continue s'"
  shows "\<exists>res w1 w2 n.
      evaluate_content self (world s) (current_content s) requirements = (Some res, w1) \<and>
      verdict res \<noteq> ''pass'' \<and>
      generate_improved_content self w1 (current_content s) (explanation res) = (Some n, w2) \<and>
      n \<noteq> [] \<and>
      s' = \<lparr>iterations = iterations s + 1, current_content = n, last_result = Some res,
            world = w2,
            events = events s @ [Evaluate (current_content s),
              Regenerate (current_content s) (explanation res) (Some n)]\<rparr>"
  using assms
  by (auto simp: loop_body_def Let_def split: prod.splits option.splits if_splits)

lemma loop_body_Return:
  assumes "loop_body self requirements s = Return r s'"
  shows "iterations s' = iterations s + 1 \<and>
     (\<exists>tr. events s' = events s @ Evaluate (current_content s) # tr \<and>
        (tr = [] \<or> (\<exists>f out. tr = [Regenerate (current_content s) f out])))"
  using assms
  by (auto simp: loop_body_def Let_def split: prod.splits option.splits if_splits)

lemma unbound_only_at_start:
  "fst (improve_loop self requirements s) = Inl UnboundLocalError \<Longrightarrow>
   last_result s = None \<and> \<not> iterations s < max_iterations self"
proof (induction self requirements s rule: improve_loop.induct)
  case (1 self requirements s)
  show ?case
  proof (cases "iterations s < max_iterations self")
    case False
    with "1.prems" show ?thesis
      by (auto simp: improve_loop_exit split: option.splits)
  next
    case True
    show ?thesis
    proof (cases "loop_body self requirements s")
      case (Return r s')
      with True "1.prems" show ?thesis
        by (simp add: improve_loop_Return)
    next
      case (Continue s')
      with True "1.prems" have "fst (improve_loop self requirements s') = Inl UnboundLocalError"
        by (simp add: improve_loop_Continue)
      with "1.IH" True Continue have "last_result s' = None" by blast
      moreover from loop_body_Continue [OF Continue] have "last_result s' \<noteq> None" by auto
      ultimately show ?thesis by simp
    qed
  qed
qed

section \<open>Claims about the refinement loop\<close>

text \<open>
  Claim C10. When \<^verbatim>\<open>max_iterations <= 0\<close> the loop body never runs and the final
  \<^verbatim>\<open>return result\<close> reads a local that was never bound: the call raises
  \<^verbatim>\<open>UnboundLocalError\<close>, having called neither the judge nor the generator.
  When \<^verbatim>\<open>max_iterations >= 1\<close> that error cannot happen: every way out of the
  loop condition passes through a cycle that bound \<^verbatim>\<open>result\<close>.
\<close>

theorem improve_content_unbound_result:
  "(max_iterations self \<le> 0 \<longrightarrow>
      improve_content self c requirements w = (Inl UnboundLocalError, initial_state c w)) \<and>
   (1 \<le> max_iterations self \<longrightarrow>
      fst (improve_content self c requirements w) \<noteq> Inl UnboundLocalError)"
proof (intro conjI impI)
  assume "max_iterations self \<le> 0"
  then have "\<not> iterations (initial_state c w) < max_iterations self"
    by (simp add: initial_state_def)
  then show "improve_content self c requirements w = (Inl UnboundLocalError, initial_state c w)"
    by (simp add: improve_content_def improve_loop_exit) (simp add: initial_state_def)
next
  assume pos: "1 \<le> max_iterations self"
  show "fst (improve_content self c requirements w) \<noteq> Inl UnboundLocalError"
  proof
    assume "fst (improve_content self c requirements w) = Inl UnboundLocalError"
    then have "\<not> iterations (initial_state c w) < max_iterations self"
      unfolding improve_content_def by (rule unbound_only_at_start [THEN conjunct2])
    with pos show False by (simp add: initial_state_def)
  qed
qed

theorem improve_content_unbound_result_witness:
  "(0::int) \<le> 0 \<and>
   improve_content (qc_double 0 (constant_run Raised) Raised) ''draft'' ''req'' 0 =
     (Inl UnboundLocalError, initial_state ''draft'' 0) \<and>
   (1::int) \<le> 1 \<and>
   fst (improve_content (qc_double 1 (constant_run Raised) Raised) ''draft'' ''req'' 0) \<noteq>
     Inl UnboundLocalError"
  using improve_content_unbound_result [of "qc_double 0 (constant_run Raised) Raised" "''draft''" "''req''" 0]
    improve_content_unbound_result [of "qc_double 1 (constant_run Raised) Raised" "''draft''" "''req''" 0]
  by (simp add: qc_double_def)

section \<open>Claims about evaluate_content\<close>

text \<open>
  Claim C6. \<^verbatim>\<open>evaluate_content\<close> returns \<^verbatim>\<open>None\<close> when the pipeline run
  raises, and when the verdict key or the explanation key is absent from the result map or
  holds the empty string. What it returns otherwise is complete: a non-empty verdict and a
  non-empty explanation, both read from the result map, and the content that was submitted.
\<close>

theorem evaluate_content_all_or_nothing:
  "(fst (pipeline_run self w (qc_schema c requirements (content_type self))) = Raised \<longrightarrow>
      fst (evaluate_content self w c requirements) = None) \<and>
   (\<forall>m. fst (pipeline_run self w (qc_schema c requirements (content_type self))) = Returned m \<and>
        (m (base_path @ ''_choice'') = None \<or> m (base_path @ ''_choice'') = Some [] \<or>
         m (base_path @ ''_explanation'') = None \<or> m (base_path @ ''_explanation'') = Some []) \<longrightarrow>
      fst (evaluate_content self w c requirements) = None) \<and>
   (\<forall>r. fst (evaluate_content self w c requirements) = Some r \<longrightarrow>
      verdict r \<noteq> [] \<and> explanation r \<noteq> [] \<and> content r = c \<and>
      (\<exists>m. fst (pipeline_run self w (qc_schema c requirements (content_type self))) = Returned m \<and>
         m (base_path @ ''_choice'') = Some (verdict r) \<and>
         m (base_path @ ''_explanation'') = Some (explanation r)))"
  by (auto simp: evaluate_content_def dict_get_def Let_def
      split: prod.splits outcome.splits option.splits if_splits)

theorem evaluate_content_all_or_nothing_witness:
  "fst (evaluate_content (qc_double 3 (constant_run Raised) Raised) 0 ''draft'' ''req'') = None \<and>
   fst (evaluate_content (qc_double 3
          (constant_run (Returned [base_path @ ''_choice'' \<mapsto> ''pass''])) Raised)
        0 ''draft'' ''req'') = None \<and>
   fst (evaluate_content (qc_double 3 (constant_run (Returned (judged ''revise'' []))) Raised)
        0 ''draft'' ''req'') = None \<and>
   fst (evaluate_content (qc_double 3 (constant_run (Returned (judged ''revise'' ''too short''))) Raised)
        0 ''draft'' ''req'') =
     Some \<lparr>verdict = ''revise'', explanation = ''too short'', content = ''draft''\<rparr> \<and>
   verdict \<lparr>verdict = ''revise'', explanation = ''too short'', content = ''draft''\<rparr> \<noteq> [] \<and>
   explanation \<lparr>verdict = ''revise'', explanation = ''too short'', content = ''draft''\<rparr> \<noteq> []"
proof -
  let ?r = "\<lparr>verdict = ''revise'', explanation = ''too short'', content = ''draft''\<rparr>"
  have good: "fst (evaluate_content
      (qc_double 3 (constant_run (Returned (judged ''revise'' ''too short''))) Raised)
      0 ''draft'' ''req'') = Some ?r"
    by (simp add: evaluate_content_def qc_double_def constant_run_def judged_def dict_get_def)
  from evaluate_content_all_or_nothing
    [of "qc_double 3 (constant_run Raised) Raised" 0 "''draft''" "''req''"]
  have a: "fst (evaluate_content (qc_double 3 (constant_run Raised) Raised) 0 ''draft'' ''req'') = None"
    by (simp add: qc_double_def constant_run_def)
  from evaluate_content_all_or_nothing
    [of "qc_double 3 (constant_run (Returned [base_path @ ''_choice'' \<mapsto> ''pass''])) Raised"
      0 "''draft''" "''req''"]
  have b: "fst (evaluate_content (qc_double 3
          (constant_run (Returned [base_path @ ''_choice'' \<mapsto> ''pass''])) Raised)
        0 ''draft'' ''req'') = None"
    by (simp add: qc_double_def constant_run_def)
  from evaluate_content_all_or_nothing
    [of "qc_double 3 (constant_run (Returned (judged ''revise'' []))) Raised"
      0 "''draft''" "''req''"]
  have c: "fst (evaluate_content (qc_double 3 (constant_run (Returned (judged ''revise'' []))) Raised)
        0 ''draft'' ''req'') = None"
    by (simp add: qc_double_def constant_run_def judged_def)
  from evaluate_content_all_or_nothing
    [of "qc_double 3 (constant_run (Returned (judged ''revise'' ''too short''))) Raised"
      0 "''draft''" "''req''"] good
  have d: "verdict ?r \<noteq> [] \<and> explanation ?r \<noteq> []"
    by blast
  from a b c good d show ?thesis by blast
qed

section \<open>Further claims about the refinement loop\<close>

lemma reachable_same_run:
  "reachable self requirements s0 s \<Longrightarrow>
   improve_loop self requirements s0 = improve_loop self requirements s"
  by (induction rule: reachable.induct) (simp_all add: improve_loop_Continue)

lemma loop_body_regeneration_failed:
  assumes "evaluate_content self (world s) (current_content s) requirements = (Some res, w1)"
    and "verdict res \<noteq> ''pass''"
    and "fst (generate_improved_content self w1 (current_content s) (explanation res)) = None \<or>
         fst (generate_improved_content self w1 (current_content s) (explanation res)) = Some []"
  shows "\<exists>s'. loop_body self requirements s = Return None s'"
proof -
  obtain out w2 where g: "generate_improved_content self w1 (current_content s) (explanation res) = (out, w2)"
    by (cases "generate_improved_content self w1 (current_content s) (explanation res)")
  with assms(3) have "out = None \<or> out = Some []" by simp
  with assms(1,2) g show ?thesis
    by (auto simp: loop_body_def Let_def)
qed

text \<open>
  Claim C5. In every cycle of a run of \<^verbatim>\<open>improve_content\<close> in which the judge
  did not pass the content: if the generation call raises, then
  \<^verbatim>\<open>generate_improved_content\<close> returns \<^verbatim>\<open>None\<close>; and if
  \<^verbatim>\<open>generate_improved_content\<close> returns \<^verbatim>\<open>None\<close>, then
  \<^verbatim>\<open>improve_content\<close> stops there and returns \<^verbatim>\<open>None\<close>.
\<close>

theorem regeneration_failure_aborts:
  assumes "reachable self requirements (initial_state c w) s"
    and "iterations s < max_iterations self"
    and "evaluate_content self (world s) (current_content s) requirements = (Some res, w1)"
    and "verdict res \<noteq> ''pass''"
  shows "(fst (client_create self w1
              (improvement_prompt (current_content s) (explanation res))) = Raised \<longrightarrow>
            fst (generate_improved_content self w1 (current_content s) (explanation res)) = None) \<and>
         (fst (generate_improved_content self w1 (current_content s) (explanation res)) = None \<longrightarrow>
            fst (improve_content self c requirements w) = Inr None)"
proof -
  have a: "fst (generate_improved_content self w1 (current_content s) (explanation res)) = None"
    if "fst (client_create self w1
      (improvement_prompt (current_content s) (explanation res))) = Raised"
    using that
    by (cases "client_create self w1 (improvement_prompt (current_content s) (explanation res))")
      (simp add: generate_improved_content_def)
  have b: "fst (improve_content self c requirements w) = Inr None"
    if "fst (generate_improved_content self w1 (current_content s) (explanation res)) = None"
  proof -
    from that have "fst (generate_improved_content self w1 (current_content s) (explanation res)) = None \<or>
         fst (generate_improved_content self w1 (current_content s) (explanation res)) = Some []"
      by (rule disjI1)
    from loop_body_regeneration_failed [OF assms(3) assms(4) this]
    obtain s' where "loop_body self requirements s = Return None s'" ..
    with assms(2) have "improve_loop self requirements s = (Inr None, s')"
      by (rule improve_loop_Return)
    moreover have "improve_content self c requirements w = improve_loop self requirements s"
      unfolding improve_content_def by (rule reachable_same_run [OF assms(1)])
    ultimately show ?thesis by simp
  qed
  from a b show ?thesis by blast
qed

theorem regeneration_failure_aborts_witness:
  "fst (client_create (qc_double 3 (constant_run (Returned (judged ''revise'' ''too short''))) Raised)
         1 (improvement_prompt ''draft'' ''too short'')) = Raised \<and>
   fst (generate_improved_content
         (qc_double 3 (constant_run (Returned (judged ''revise'' ''too short''))) Raised)
         1 ''draft'' ''too short'') = None \<and>
   fst (improve_content (qc_double 3 (constant_run (Returned (judged ''revise'' ''too short''))) Raised)
         ''draft'' ''req'' 0) = Inr None"
proof -
  let ?qc = "qc_double 3 (constant_run (Returned (judged ''revise'' ''too short''))) Raised"
  let ?res = "\<lparr>verdict = ''revise'', explanation = ''too short'', content = ''draft''\<rparr>"
  have r: "reachable ?qc ''req'' (initial_state ''draft'' 0) (initial_state ''draft'' 0)"
    by (rule reachable.start)
  have i: "iterations (initial_state ''draft'' (0::nat)) < max_iterations ?qc"
    by (simp add: initial_state_def qc_double_def)
  have e: "evaluate_content ?qc (world (initial_state ''draft'' 0))
      (current_content (initial_state ''draft'' (0::nat))) ''req'' = (Some ?res, 1)"
    by (simp add: evaluate_content_def qc_double_def constant_run_def judged_def dict_get_def
        initial_state_def)
  have v: "verdict ?res \<noteq> ''pass''" by simp
  have raised: "fst (client_create ?qc 1 (improvement_prompt ''draft'' ''too short'')) = Raised"
    by (simp add: qc_double_def constant_client_def)
  from regeneration_failure_aborts [OF r i e v] raised show ?thesis
    by (simp add: initial_state_def)
qed

lemma evaluate_content_Some:
  assumes "fst (pipeline_run self w (qc_schema c requirements (content_type self))) = Returned m"
    and "m (base_path @ ''_choice'') = Some v" and "v \<noteq> []"
    and "m (base_path @ ''_explanation'') = Some e" and "e \<noteq> []"
  shows "evaluate_content self w c requirements =
     (Some \<lparr>verdict = v, explanation = e, content = c\<rparr>,
      snd (pipeline_run self w (qc_schema c requirements (content_type self))))"
  using assms
  by (cases "pipeline_run self w (qc_schema c requirements (content_type self))")
    (simp add: evaluate_content_def dict_get_def)

lemma generate_improved_content_Some:
  assumes "fst (client_create self w (improvement_prompt c f)) = Returned out"
  shows "generate_improved_content self w c f =
     (out, snd (client_create self w (improvement_prompt c f)))"
  using assms
  by (cases "client_create self w (improvement_prompt c f)")
    (simp add: generate_improved_content_def)

lemma loop_body_pass:
  assumes "evaluate_content self (world s) (current_content s) requirements = (Some res, w1)"
    and "verdict res = ''pass''"
  shows "loop_body self requirements s =
     Return (Some res)
       \<lparr>iterations = iterations s + 1, current_content = current_content s,
        last_result = Some res, world = w1,
        events = events s @ [Evaluate (current_content s)]\<rparr>"
  using assms by (simp add: loop_body_def)

lemma loop_body_regenerated:
  assumes "evaluate_content self (world s) (current_content s) requirements = (Some res, w1)"
    and "verdict res \<noteq> ''pass''"
    and "generate_improved_content self w1 (current_content s) (explanation res) = (Some n, w2)"
    and "n \<noteq> []"
  shows "loop_body self requirements s =
     Continue
       \<lparr>iterations = iterations s + 1, current_content = n,
        last_result = Some res, world = w2,
        events = events s @ [Evaluate (current_content s),
          Regenerate (current_content s) (explanation res) (Some n)]\<rparr>"
  using assms by (simp add: loop_body_def)

lemma revise_cycle:
  assumes judge: "\<And>w src. \<exists>m e. fst (pipeline_run self w src) = Returned m \<and>
        m (base_path @ ''_choice'') = Some ''revise'' \<and>
        m (base_path @ ''_explanation'') = Some e \<and> e \<noteq> []"
    and improver: "\<And>w p. \<exists>n. fst (client_create self w p) = Returned (Some n) \<and> n \<noteq> []"
  shows "\<exists>res n w2. loop_body self requirements s =
       Continue \<lparr>iterations = iterations s + 1, current_content = n,
         last_result = Some res, world = w2,
         events = events s @ [Evaluate (current_content s),
           Regenerate (current_content s) (explanation res) (Some n)]\<rparr> \<and>
       verdict res = ''revise'' \<and> content res = current_content s \<and> n \<noteq> []"
proof -
  let ?src = "qc_schema (current_content s) requirements (content_type self)"
  from judge [of "world s" ?src] obtain m e where
    m: "fst (pipeline_run self (world s) ?src) = Returned m"
      "m (base_path @ ''_choice'') = Some ''revise''"
      "m (base_path @ ''_explanation'') = Some e" "e \<noteq> []"
    by blast
  let ?res = "\<lparr>verdict = ''revise'', explanation = e, content = current_content s\<rparr>"
  let ?w1 = "snd (pipeline_run self (world s) ?src)"
  have ev: "evaluate_content self (world s) (current_content s) requirements = (Some ?res, ?w1)"
    by (rule evaluate_content_Some [OF m(1) m(2) _ m(3) m(4)]) simp
  let ?p = "improvement_prompt (current_content s) (explanation ?res)"
  from improver [of ?w1 ?p] obtain n where
    n: "fst (client_create self ?w1 ?p) = Returned (Some n)" "n \<noteq> []"
    by blast
  have gen: "generate_improved_content self ?w1 (current_content s) (explanation ?res) =
      (Some n, snd (client_create self ?w1 ?p))"
    by (rule generate_improved_content_Some [OF n(1)])
  have "verdict ?res \<noteq> ''pass''" by simp
  from loop_body_regenerated [OF ev this gen n(2)] n(2) show ?thesis
    by (intro exI [of _ ?res] exI [of _ n] exI) simp
qed

lemma evaluations_append [simp]: "evaluations (xs @ ys) = evaluations xs + evaluations ys"
  by (simp add: evaluations_def)

lemma regenerations_append [simp]: "regenerations (xs @ ys) = regenerations xs + regenerations ys"
  by (simp add: regenerations_def)

lemma always_revise_loop:
  assumes judge: "\<And>w src. \<exists>m e. fst (pipeline_run self w src) = Returned m \<and>
        m (base_path @ ''_choice'') = Some ''revise'' \<and>
        m (base_path @ ''_explanation'') = Some e \<and> e \<noteq> []"
    and improver: "\<And>w p. \<exists>n. fst (client_create self w p) = Returned (Some n) \<and> n \<noteq> []"
    and lt: "iterations s < max_iterations self"
  shows "\<exists>res s' pre n. improve_loop self requirements s = (Inr (Some res), s') \<and>
      verdict res = ''revise'' \<and> iterations s' = max_iterations self \<and>
      events s' = pre @ [Evaluate (content res), Regenerate (content res) (explanation res) (Some n)] \<and>
      evaluations (events s') = evaluations (events s) + nat (max_iterations self - iterations s) \<and>
      regenerations (events s') = regenerations (events s) + nat (max_iterations self - iterations s)"
  using lt
proof (induction "nat (max_iterations self - iterations s)" arbitrary: s)
  case 0
  then show ?case by simp
next
  case (Suc k)
  from revise_cycle [OF judge improver, of requirements s] obtain res n w2 where
    body: "loop_body self requirements s =
       Continue \<lparr>iterations = iterations s + 1, current_content = n,
         last_result = Some res, world = w2,
         events = events s @ [Evaluate (current_content s),
           Regenerate (current_content s) (explanation res) (Some n)]\<rparr>"
    and res: "verdict res = ''revise''" "content res = current_content s"
    by blast
  let ?s1 = "\<lparr>iterations = iterations s + 1, current_content = n,
         last_result = Some res, world = w2,
         events = events s @ [Evaluate (current_content s),
           Regenerate (current_content s) (explanation res) (Some n)]\<rparr>"
  have step: "improve_loop self requirements s = improve_loop self requirements ?s1"
    by (rule improve_loop_Continue [OF Suc.prems body])
  have ev1: "evaluations (events ?s1) = evaluations (events s) + 1"
    by (simp add: evaluations_def)
  have rg1: "regenerations (events ?s1) = regenerations (events s) + 1"
    by (simp add: regenerations_def)
  show ?case
  proof (cases "iterations ?s1 < max_iterations self")
    case True
    moreover from Suc.hyps(2) have "k = nat (max_iterations self - iterations ?s1)" by simp
    ultimately obtain res' s' pre n' where
      ih: "improve_loop self requirements ?s1 = (Inr (Some res'), s')"
        "verdict res' = ''revise''" "iterations s' = max_iterations self"
        "events s' = pre @ [Evaluate (content res'), Regenerate (content res') (explanation res') (Some n')]"
        "evaluations (events s') = evaluations (events ?s1) + nat (max_iterations self - iterations ?s1)"
        "regenerations (events s') = regenerations (events ?s1) + nat (max_iterations self - iterations ?s1)"
      using Suc.hyps(1) [of ?s1] by blast
    from ih(5) ev1 Suc.prems
    have e: "evaluations (events s') = evaluations (events s) + nat (max_iterations self - iterations s)"
      by simp
    from ih(6) rg1 Suc.prems
    have r: "regenerations (events s') = regenerations (events s) + nat (max_iterations self - iterations s)"
      by simp
    from step ih(1) have "improve_loop self requirements s = (Inr (Some res'), s')" by simp
    with ih(2,3,4) e r show ?thesis by blast
  next
    case False
    with Suc.prems have m: "max_iterations self = iterations s + 1" by simp
    from False have "improve_loop self requirements ?s1 = (Inr (Some res), ?s1)"
      by (simp add: improve_loop_exit)
    with step have run: "improve_loop self requirements s = (Inr (Some res), ?s1)" by simp
    have "events ?s1 = events s @ [Evaluate (content res),
        Regenerate (content res) (explanation res) (Some n)]"
      using res(2) by simp
    moreover from ev1 m have "evaluations (events ?s1) =
        evaluations (events s) + nat (max_iterations self - iterations s)" by simp
    moreover from rg1 m have "regenerations (events ?s1) =
        regenerations (events s) + nat (max_iterations self - iterations s)" by simp
    moreover from m have "iterations ?s1 = max_iterations self" by simp
    ultimately show ?thesis using run res(1) by blast
  qed
qed

text \<open>
  Claim C1, as the code has it. With \<^verbatim>\<open>max_iterations = 3\<close>, a judge that answers
  ``revise'' (with a non-empty explanation) on every evaluation and a generator that always
  returns non-empty content, \<^verbatim>\<open>improve_content\<close> evaluates exactly 3 times and
  regenerates exactly 3 times, once after every failing evaluation, the last one included;
  it then returns the result of the last evaluation, whose verdict is ``revise''. The
  content produced by the last regeneration is not evaluated.
\<close>

theorem always_revise_exhausts:
  assumes judge: "\<And>w src. \<exists>m e. fst (pipeline_run self w src) = Returned m \<and>
        m (base_path @ ''_choice'') = Some ''revise'' \<and>
        m (base_path @ ''_explanation'') = Some e \<and> e \<noteq> []"
    and improver: "\<And>w p. \<exists>n. fst (client_create self w p) = Returned (Some n) \<and> n \<noteq> []"
    and three: "max_iterations self = 3"
  shows "\<exists>res s' pre n. improve_content self c requirements w = (Inr (Some res), s') \<and>
      verdict res = ''revise'' \<and>
      events s' = pre @ [Evaluate (content res), Regenerate (content res) (explanation res) (Some n)] \<and>
      evaluations (events s') = 3 \<and> regenerations (events s') = 3"
proof -
  from three have "iterations (initial_state c w) < max_iterations self"
    by (simp add: initial_state_def)
  from always_revise_loop [OF judge improver this, of requirements] three
  show ?thesis
    unfolding improve_content_def
    by (simp add: initial_state_def evaluations_def regenerations_def) blast
qed

lemma revise_double_fields:
  "max_iterations revise_double = 3"
  "content_type revise_double = ''text''"
  "pipeline_run revise_double w src = (Returned (judged ''revise'' ''too short''), Suc w)"
  "client_create revise_double w p = (Returned (Some ''longer draft''), w)"
  by (simp_all add: revise_double_def qc_double_def constant_run_def constant_client_def)

lemma revise_double_evaluate:
  "evaluate_content revise_double w c requirements =
     (Some \<lparr>verdict = ''revise'', explanation = ''too short'', content = c\<rparr>, Suc w)"
  by (simp add: evaluate_content_def revise_double_fields judged_def dict_get_def)

lemma revise_double_generate:
  "generate_improved_content revise_double w c f = (Some ''longer draft'', w)"
  by (simp add: generate_improved_content_def revise_double_fields)

lemma revise_double_body:
  "loop_body revise_double requirements s =
     Continue \<lparr>iterations = iterations s + 1, current_content = ''longer draft'',
       last_result = Some \<lparr>verdict = ''revise'', explanation = ''too short'',
         content = current_content s\<rparr>,
       world = Suc (world s),
       events = events s @ [Evaluate (current_content s),
         Regenerate (current_content s) ''too short'' (Some ''longer draft'')]\<rparr>"
  by (simp add: loop_body_def revise_double_evaluate revise_double_generate)

text \<open>
  Claim C1, as stated, at a concrete run: with \<^verbatim>\<open>max_iterations = 3\<close> and a judge
  that always answers ``revise'', the log holds three regeneration calls, not two.
\<close>

theorem always_revise_three_regenerations:
  "improve_content revise_double ''draft'' ''req'' 0 =
     (Inr (Some \<lparr>verdict = ''revise'', explanation = ''too short'', content = ''longer draft''\<rparr>),
      \<lparr>iterations = 3, current_content = ''longer draft'',
       last_result = Some \<lparr>verdict = ''revise'', explanation = ''too short'',
         content = ''longer draft''\<rparr>,
       world = 3,
       events = [Evaluate ''draft'', Regenerate ''draft'' ''too short'' (Some ''longer draft''),
         Evaluate ''longer draft'', Regenerate ''longer draft'' ''too short'' (Some ''longer draft''),
         Evaluate ''longer draft'', Regenerate ''longer draft'' ''too short'' (Some ''longer draft'')]\<rparr>) \<and>
   regenerations (events (snd (improve_content revise_double ''draft'' ''req'' 0))) \<noteq> 2"
proof -
  let ?s0 = "initial_state ''draft'' (0::nat)"
  let ?s1 = "\<lparr>iterations = 1, current_content = ''longer draft'',
       last_result = Some \<lparr>verdict = ''revise'', explanation = ''too short'', content = ''draft''\<rparr>,
       world = Suc 0,
       events = [Evaluate ''draft'', Regenerate ''draft'' ''too short'' (Some ''longer draft'')]\<rparr>"
  let ?s2 = "\<lparr>iterations = 2, current_content = ''longer draft'',
       last_result = Some \<lparr>verdict = ''revise'', explanation = ''too short'',
         content = ''longer draft''\<rparr>,
       world = Suc (Suc 0),
       events = [Evaluate ''draft'', Regenerate ''draft'' ''too short'' (Some ''longer draft''),
         Evaluate ''longer draft'', Regenerate ''longer draft'' ''too short'' (Some ''longer draft'')]\<rparr>"
  let ?s3 = "\<lparr>iterations = 3, current_content = ''longer draft'',
       last_result = Some \<lparr>verdict = ''revise'', explanation = ''too short'',
         content = ''longer draft''\<rparr>,
       world = Suc (Suc (Suc 0)),
       events = [Evaluate ''draft'', Regenerate ''draft'' ''too short'' (Some ''longer draft''),
         Evaluate ''longer draft'', Regenerate ''longer draft'' ''too short'' (Some ''longer draft''),
         Evaluate ''longer draft'', Regenerate ''longer draft'' ''too short'' (Some ''longer draft'')]\<rparr>"
  have b0: "loop_body revise_double ''req'' ?s0 = Continue ?s1"
    by (simp add: revise_double_body initial_state_def)
  have b1: "loop_body revise_double ''req'' ?s1 = Continue ?s2"
    by (simp add: revise_double_body)
  have b2: "loop_body revise_double ''req'' ?s2 = Continue ?s3"
    by (simp add: revise_double_body)
  have "improve_loop revise_double ''req'' ?s0 = improve_loop revise_double ''req'' ?s1"
    by (rule improve_loop_Continue [OF _ b0]) (simp add: initial_state_def revise_double_fields)
  also have "\<dots> = improve_loop revise_double ''req'' ?s2"
    by (rule improve_loop_Continue [OF _ b1]) (simp add: revise_double_fields)
  also have "\<dots> = improve_loop revise_double ''req'' ?s3"
    by (rule improve_loop_Continue [OF _ b2]) (simp add: revise_double_fields)
  also have "\<dots> = (Inr (Some \<lparr>verdict = ''revise'', explanation = ''too short'',
      content = ''longer draft''\<rparr>), ?s3)"
    by (simp add: improve_loop_exit revise_double_fields)
  finally have run: "improve_content revise_double ''draft'' ''req'' 0 =
      (Inr (Some \<lparr>verdict = ''revise'', explanation = ''too short'',
      content = ''longer draft''\<rparr>), ?s3)"
    by (simp add: improve_content_def)
  have "regenerations (events ?s3) = 3"
    by (simp add: regenerations_def)
  with run show ?thesis by (simp add: numeral_3_eq_3)
qed

theorem always_revise_exhausts_witness:
  "\<exists>res s' pre n. improve_content revise_double ''draft'' ''req'' 0 = (Inr (Some res), s') \<and>
      verdict res = ''revise'' \<and>
      events s' = pre @ [Evaluate (content res), Regenerate (content res) (explanation res) (Some n)] \<and>
      evaluations (events s') = 3 \<and> regenerations (events s') = 3"
proof (rule always_revise_exhausts)
  show "\<exists>m e. fst (pipeline_run revise_double w src) = Returned m \<and>
        m (base_path @ ''_choice'') = Some ''revise'' \<and>
        m (base_path @ ''_explanation'') = Some e \<and> e \<noteq> []" for w src
    by (simp add: revise_double_fields judged_def)
  show "\<exists>n. fst (client_create revise_double w p) = Returned (Some n) \<and> n \<noteq> []" for w p
    by (simp add: revise_double_fields)
  show "max_iterations revise_double = 3"
    by (simp add: revise_double_fields)
qed

text \<open>
  Claim C3. With \<^verbatim>\<open>max_iterations >= 2\<close>, a judge that answers ``revise'' on the
  first evaluation and ``pass'' on the second, and a regeneration in between that returns
  non-empty content, \<^verbatim>\<open>improve_content\<close> makes exactly 2 evaluations and exactly 1
  regeneration call, and returns the passing result, whose content is the regenerated
  content.
\<close>

theorem revise_then_pass:
  assumes budget: "2 \<le> max_iterations self"
    and first: "pipeline_run self w0 (qc_schema c requirements (content_type self)) = (Returned m1, w1)"
      "m1 (base_path @ ''_choice'') = Some ''revise''"
      "m1 (base_path @ ''_explanation'') = Some e1" "e1 \<noteq> []"
    and regen: "client_create self w1 (improvement_prompt c e1) = (Returned (Some c2), w2)"
      "c2 \<noteq> []"
    and second: "pipeline_run self w2 (qc_schema c2 requirements (content_type self)) = (Returned m2, w3)"
      "m2 (base_path @ ''_choice'') = Some ''pass''"
      "m2 (base_path @ ''_explanation'') = Some e2" "e2 \<noteq> []"
  shows "improve_content self c requirements w0 =
      (Inr (Some \<lparr>verdict = ''pass'', explanation = e2, content = c2\<rparr>),
       \<lparr>iterations = 2, current_content = c2,
        last_result = Some \<lparr>verdict = ''pass'', explanation = e2, content = c2\<rparr>,
        world = w3,
        events = [Evaluate c, Regenerate c e1 (Some c2), Evaluate c2]\<rparr>) \<and>
     evaluations [Evaluate c, Regenerate c e1 (Some c2), Evaluate c2] = 2 \<and>
     regenerations [Evaluate c, Regenerate c e1 (Some c2), Evaluate c2] = 1"
proof -
  let ?s0 = "initial_state c w0"
  let ?r1 = "\<lparr>verdict = ''revise'', explanation = e1, content = c\<rparr>"
  let ?r2 = "\<lparr>verdict = ''pass'', explanation = e2, content = c2\<rparr>"
  let ?s1 = "\<lparr>iterations = 1, current_content = c2, last_result = Some ?r1, world = w2,
      events = [Evaluate c, Regenerate c e1 (Some c2)]\<rparr>"
  let ?s2 = "\<lparr>iterations = 2, current_content = c2, last_result = Some ?r2, world = w3,
      events = [Evaluate c, Regenerate c e1 (Some c2), Evaluate c2]\<rparr>"
  have ev1: "evaluate_content self (world ?s0) (current_content ?s0) requirements = (Some ?r1, w1)"
    using evaluate_content_Some [of self w0 c requirements m1 "''revise''" e1] first
    by (simp add: initial_state_def)
  have gen: "generate_improved_content self w1 (current_content ?s0) (explanation ?r1) = (Some c2, w2)"
    using generate_improved_content_Some [of self w1 c e1 "Some c2"] regen(1)
    by (simp add: initial_state_def)
  have "verdict ?r1 \<noteq> ''pass''" by simp
  from loop_body_regenerated [OF ev1 this gen regen(2)]
  have b0: "loop_body self requirements ?s0 = Continue ?s1"
    by (simp add: initial_state_def)
  have ev2: "evaluate_content self (world ?s1) (current_content ?s1) requirements = (Some ?r2, w3)"
    using evaluate_content_Some [of self w2 c2 requirements m2 "''pass''" e2] second
    by simp
  have "verdict ?r2 = ''pass''" by simp
  from loop_body_pass [OF ev2 this]
  have b1: "loop_body self requirements ?s1 = Return (Some ?r2) ?s2"
    by simp
  have "improve_loop self requirements ?s0 = improve_loop self requirements ?s1"
    by (rule improve_loop_Continue [OF _ b0]) (use budget in \<open>simp add: initial_state_def\<close>)
  also have "\<dots> = (Inr (Some ?r2), ?s2)"
    by (rule improve_loop_Return [OF _ b1]) (use budget in simp)
  finally have "improve_content self c requirements w0 = (Inr (Some ?r2), ?s2)"
    by (simp add: improve_content_def)
  then show ?thesis
    by (simp add: evaluations_def regenerations_def)
qed

theorem revise_then_pass_witness:
  "improve_content revise_then_pass_double ''draft'' ''req'' 0 =
      (Inr (Some \<lparr>verdict = ''pass'', explanation = ''complete'', content = ''longer draft''\<rparr>),
       \<lparr>iterations = 2, current_content = ''longer draft'',
        last_result = Some \<lparr>verdict = ''pass'', explanation = ''complete'',
          content = ''longer draft''\<rparr>,
        world = 2,
        events = [Evaluate ''draft'', Regenerate ''draft'' ''too short'' (Some ''longer draft''),
          Evaluate ''longer draft'']\<rparr>) \<and>
     evaluations [Evaluate ''draft'', Regenerate ''draft'' ''too short'' (Some ''longer draft''),
          Evaluate ''longer draft''] = 2 \<and>
     regenerations [Evaluate ''draft'', Regenerate ''draft'' ''too short'' (Some ''longer draft''),
          Evaluate ''longer draft''] = 1"
proof (rule revise_then_pass)
  show "2 \<le> max_iterations revise_then_pass_double"
    by (simp add: revise_then_pass_double_def qc_double_def)
  show "pipeline_run revise_then_pass_double 0
      (qc_schema ''draft'' ''req'' (content_type revise_then_pass_double)) =
      (Returned (judged ''revise'' ''too short''), 1)"
    by (simp add: revise_then_pass_double_def qc_double_def scripted_run_def)
  show "judged ''revise'' ''too short'' (base_path @ ''_choice'') = Some ''revise''"
    by (simp add: judged_def)
  show "judged ''revise'' ''too short'' (base_path @ ''_explanation'') = Some ''too short''"
    by (simp add: judged_def)
  show "''too short'' \<noteq> []" by simp
  show "client_create revise_then_pass_double 1 (improvement_prompt ''draft'' ''too short'') =
      (Returned (Some ''longer draft''), 1)"
    by (simp add: revise_then_pass_double_def qc_double_def constant_client_def)
  show "''longer draft'' \<noteq> []" by simp
  show "pipeline_run revise_then_pass_double 1
      (qc_schema ''longer draft'' ''req'' (content_type revise_then_pass_double)) =
      (Returned (judged ''pass'' ''complete''), 2)"
    by (simp add: revise_then_pass_double_def qc_double_def scripted_run_def)
  show "judged ''pass'' ''complete'' (base_path @ ''_choice'') = Some ''pass''"
    by (simp add: judged_def)
  show "judged ''pass'' ''complete'' (base_path @ ''_explanation'') = Some ''complete''"
    by (simp add: judged_def)
  show "''complete'' \<noteq> []" by simp
qed

lemma regenerated_between_no_double:
  "regenerated_between cur es \<Longrightarrow> no_double_evaluate es"
  by (induction cur es rule: regenerated_between.induct) (auto split: option.splits)

lemma regenerated_between_cycle:
  assumes "n \<noteq> []" and "regenerated_between n tr"
  shows "regenerated_between cur (Evaluate cur # Regenerate cur f (Some n) # tr)"
  using assms by (cases tr) simp_all

lemma loop_trace:
  "\<exists>tr. events (snd (improve_loop self requirements s)) = events s @ tr \<and>
     regenerated_between (current_content s) tr"
proof (induction self requirements s rule: improve_loop.induct)
  case (1 self requirements s)
  show ?case
  proof (cases "iterations s < max_iterations self")
    case False
    then have "snd (improve_loop self requirements s) = s"
      by (simp add: improve_loop_exit split: option.splits)
    then show ?thesis by simp
  next
    case True
    show ?thesis
    proof (cases "loop_body self requirements s")
      case (Return r s')
      from loop_body_Return [OF Return] obtain tr where
        tr: "events s' = events s @ Evaluate (current_content s) # tr"
          "tr = [] \<or> (\<exists>f out. tr = [Regenerate (current_content s) f out])"
        by blast
      from tr(2) have "regenerated_between (current_content s) (Evaluate (current_content s) # tr)"
        by auto
      moreover from True Return have "snd (improve_loop self requirements s) = s'"
        by (simp add: improve_loop_Return)
      ultimately show ?thesis using tr(1) by blast
    next
      case (Continue s')
      from loop_body_Continue [OF Continue] obtain f n where
        n: "n \<noteq> []" "current_content s' = n"
          "events s' = events s @ [Evaluate (current_content s),
              Regenerate (current_content s) f (Some n)]"
        by auto
      from "1.IH" [OF True Continue] obtain tr where
        tr: "events (snd (improve_loop self requirements s')) = events s' @ tr"
          "regenerated_between (current_content s') tr"
        by blast
      from True Continue have "improve_loop self requirements s = improve_loop self requirements s'"
        by (rule improve_loop_Continue)
      with tr(1) n(3) have "events (snd (improve_loop self requirements s)) =
          events s @ (Evaluate (current_content s) #
            Regenerate (current_content s) f (Some n) # tr)"
        by simp
      moreover from regenerated_between_cycle [OF n(1)] tr(2) n(2)
      have "regenerated_between (current_content s)
          (Evaluate (current_content s) # Regenerate (current_content s) f (Some n) # tr)"
        by simp
      ultimately show ?thesis by blast
    qed
  qed
qed

text \<open>
  Claim C7. In the log of every run of \<^verbatim>\<open>improve_content\<close>, each cycle submits
  the current content to the judge; a further evaluation happens only after a
  regeneration of that content that returned non-empty text, and it submits exactly that
  text. So no two evaluations stand next to each other in the log: every cycle ends the
  run or regenerates.
\<close>

theorem regeneration_between_evaluations:
  "regenerated_between c (events (snd (improve_content self c requirements w))) \<and>
   no_double_evaluate (events (snd (improve_content self c requirements w)))"
proof -
  from loop_trace [of self requirements "initial_state c w"]
  have "regenerated_between c (events (snd (improve_content self c requirements w)))"
    by (simp add: improve_content_def initial_state_def)
  then show ?thesis
    by (simp add: regenerated_between_no_double)
qed

lemma reachable_iterations:
  assumes "reachable self requirements s0 s"
  shows "iterations s0 \<le> iterations s \<and>
     (iterations s0 \<le> max_iterations self \<longrightarrow> iterations s \<le> max_iterations self)"
  using assms
proof (induction rule: reachable.induct)
  case start
  show ?case by simp
next
  case (continue s s')
  from loop_body_Continue [OF continue.hyps(3)] have "iterations s' = iterations s + 1"
    by auto
  with continue show ?case by simp
qed

text \<open>
  Claim C8. With \<^verbatim>\<open>max_iterations >= 1\<close>, the counter is 0 at the start; in every
  state in which the loop condition is tested it lies between 0 and
  \<^verbatim>\<open>max_iterations\<close>; and every cycle, whether it goes on or returns, leaves it
  exactly one higher and still not above \<^verbatim>\<open>max_iterations\<close>.
\<close>

theorem iterations_counter_bounded:
  assumes "1 \<le> max_iterations self"
    and "reachable self requirements (initial_state c w) s"
  shows "iterations (initial_state c w) = 0 \<and>
     0 \<le> iterations s \<and> iterations s \<le> max_iterations self \<and>
     (iterations s < max_iterations self \<longrightarrow>
        (\<forall>s'. loop_body self requirements s = Continue s' \<longrightarrow>
           iterations s' = iterations s + 1 \<and> iterations s' \<le> max_iterations self) \<and>
        (\<forall>r s'. loop_body self requirements s = Return r s' \<longrightarrow>
           iterations s' = iterations s + 1 \<and> iterations s' \<le> max_iterations self))"
proof -
  have z: "iterations (initial_state c w) = 0"
    by (simp add: initial_state_def)
  from reachable_iterations [OF assms(2)] z assms(1)
  have b: "0 \<le> iterations s \<and> iterations s \<le> max_iterations self"
    by simp
  have k: "iterations s' = iterations s + 1" if "loop_body self requirements s = Continue s'" for s'
    using loop_body_Continue [OF that] by auto
  have r: "iterations s' = iterations s + 1" if "loop_body self requirements s = Return r s'" for r s'
    using loop_body_Return [OF that] by simp
  show ?thesis
  proof (intro conjI impI allI)
    show "iterations (initial_state c w) = 0" by (rule z)
    show "0 \<le> iterations s" using b by (rule conjunct1)
    show "iterations s \<le> max_iterations self" using b by (rule conjunct2)
  next
    fix s' assume "iterations s < max_iterations self" "loop_body self requirements s = Continue s'"
    with k [of s'] show "iterations s' = iterations s + 1" "iterations s' \<le> max_iterations self"
      by simp_all
  next
    fix r' s' assume "iterations s < max_iterations self" "loop_body self requirements s = Return r' s'"
    with r [of r' s'] show "iterations s' = iterations s + 1" "iterations s' \<le> max_iterations self"
      by simp_all
  qed
qed

theorem iterations_counter_bounded_witness:
  "iterations (initial_state ''draft'' (0::nat)) = 0 \<and>
   (1::int) \<le> max_iterations revise_double \<and>
   reachable revise_double ''req'' (initial_state ''draft'' 0)
     \<lparr>iterations = 1, current_content = ''longer draft'',
       last_result = Some \<lparr>verdict = ''revise'', explanation = ''too short'', content = ''draft''\<rparr>,
       world = Suc 0,
       events = [Evaluate ''draft'', Regenerate ''draft'' ''too short'' (Some ''longer draft'')]\<rparr> \<and>
   loop_body revise_double ''req''
     \<lparr>iterations = 1, current_content = ''longer draft'',
       last_result = Some \<lparr>verdict = ''revise'', explanation = ''too short'', content = ''draft''\<rparr>,
       world = Suc 0,
       events = [Evaluate ''draft'', Regenerate ''draft'' ''too short'' (Some ''longer draft'')]\<rparr> =
     Continue
     \<lparr>iterations = 2, current_content = ''longer draft'',
       last_result = Some \<lparr>verdict = ''revise'', explanation = ''too short'',
         content = ''longer draft''\<rparr>,
       world = Suc (Suc 0),
       events = [Evaluate ''draft'', Regenerate ''draft'' ''too short'' (Some ''longer draft''),
         Evaluate ''longer draft'', Regenerate ''longer draft'' ''too short'' (Some ''longer draft'')]\<rparr> \<and>
   iterations
     \<lparr>iterations = 2, current_content = ''longer draft'',
       last_result = Some \<lparr>verdict = ''revise'', explanation = ''too short'',
         content = ''longer draft''\<rparr>,
       world = Suc (Suc 0),
       events = [Evaluate ''draft'', Regenerate ''draft'' ''too short'' (Some ''longer draft''),
         Evaluate ''longer draft'', Regenerate ''longer draft'' ''too short'' (Some ''longer draft'')]\<rparr>
     \<le> max_iterations revise_double"
proof -
  let ?s0 = "initial_state ''draft'' (0::nat)"
  let ?s1 = "\<lparr>iterations = 1, current_content = ''longer draft'',
       last_result = Some \<lparr>verdict = ''revise'', explanation = ''too short'', content = ''draft''\<rparr>,
       world = Suc 0,
       events = [Evaluate ''draft'', Regenerate ''draft'' ''too short'' (Some ''longer draft'')]\<rparr>"
  let ?s2 = "\<lparr>iterations = 2, current_content = ''longer draft'',
       last_result = Some \<lparr>verdict = ''revise'', explanation = ''too short'',
         content = ''longer draft''\<rparr>,
       world = Suc (Suc 0),
       events = [Evaluate ''draft'', Regenerate ''draft'' ''too short'' (Some ''longer draft''),
         Evaluate ''longer draft'', Regenerate ''longer draft'' ''too short'' (Some ''longer draft'')]\<rparr>"
  have b0: "loop_body revise_double ''req'' ?s0 = Continue ?s1"
    by (simp add: revise_double_body initial_state_def)
  have b1: "loop_body revise_double ''req'' ?s1 = Continue ?s2"
    by (simp add: revise_double_body)
  have lt: "iterations ?s0 < max_iterations revise_double"
    by (simp add: initial_state_def revise_double_fields)
  have r: "reachable revise_double ''req'' ?s0 ?s1"
    by (rule reachable.continue [OF reachable.start lt b0])
  have m: "1 \<le> max_iterations revise_double"
    by (simp add: revise_double_fields)
  have lt1: "iterations ?s1 < max_iterations revise_double"
    by (simp add: revise_double_fields)
  from iterations_counter_bounded [OF m r]
  have z: "iterations ?s0 = 0"
    and "\<forall>s'. loop_body revise_double ''req'' ?s1 = Continue s' \<longrightarrow>
           iterations s' = iterations ?s1 + 1 \<and> iterations s' \<le> max_iterations revise_double"
    using lt1 by blast+
  with b1 have "iterations ?s2 \<le> max_iterations revise_double"
    by blast
  with z m r b1 show ?thesis by blast
qed

section \<open>Claims about the executor and its callers\<close>

lemma run_units_deterministic:
  assumes det: "\<And>w w' u ctx. fst (judge w u ctx) = fst (judge w' u ctx)"
  shows "\<exists>res' ex' v v'.
     run_units keys judge pname i st ctx us (res, ex, w) = (res', ex', v) \<and>
     run_units keys judge pname i st ctx us (res, ex, w') = (res', ex', v')"
proof (induction us arbitrary: res ex w w')
  case Nil
  show ?case by simp
next
  case (Cons u us)
  obtain out w1 where a: "judge w u ctx = (out, w1)" by (cases "judge w u ctx")
  obtain out' w1' where b: "judge w' u ctx = (out', w1')" by (cases "judge w' u ctx")
  from det [where w = w and u = u and ctx = ctx and w' = w'] a b have "out' = out" by simp
  with a b Cons.IH [where res = "record_unit (keys pname i st u) u out res"
      and ex = "ex @ explanation_of out" and w = w1 and w' = w1']
  show ?case by simp
qed

lemma run_stages_deterministic:
  assumes det: "\<And>w w' u ctx. fst (judge w u ctx) = fst (judge w' u ctx)"
  shows "fst (run_stages keys judge pname src i sts (res, prev, w)) =
     fst (run_stages keys judge pname src i sts (res, prev, w'))"
proof (induction sts arbitrary: i res prev w w')
  case Nil
  show ?case by simp
next
  case (Cons st sts)
  from run_units_deterministic [where judge = judge and keys = keys and pname = pname
      and i = i and st = st
      and ctx = "\<lparr>source = src, previous = prev\<rparr>" and us = "stage_units st"
      and res = res and ex = "[]" and w = w and w' = w', OF det]
  obtain res' ex' v v' where
    "run_units keys judge pname i st \<lparr>source = src, previous = prev\<rparr>
       (stage_units st) (res, [], w) = (res', ex', v)"
    "run_units keys judge pname i st \<lparr>source = src, previous = prev\<rparr>
       (stage_units st) (res, [], w') = (res', ex', v')"
    by blast
  with Cons.IH [where i = "Suc i" and res = res' and prev = ex' and w = v and w' = v']
  show ?case by simp
qed

lemma run_deterministic:
  assumes det: "\<And>w w' u ctx. fst (judge w u ctx) = fst (judge w' u ctx)"
  shows "fst (run keys judge p w src) = fst (run keys judge p w' src)"
  unfolding run_def by (rule run_stages_deterministic [where judge = judge, OF det])

lemma run_of_deterministic:
  assumes det: "\<And>w w' u ctx. fst (judge w u ctx) = fst (judge w' u ctx)"
  shows "fst (run_of keys judge p w src) = fst (run_of keys judge p w' src)"
proof -
  obtain r v where a: "run keys judge p w src = (r, v)" by (cases "run keys judge p w src")
  obtain r' v' where b: "run keys judge p w' src = (r', v')" by (cases "run keys judge p w' src")
  from run_deterministic [where judge = judge and keys = keys and p = p and w = w and src = src
      and w' = w', OF det] a b
  have "r' = r" by simp
  with a b show ?thesis by (simp add: run_of_def)
qed

lemma evaluate_content_depends_on_run:
  assumes "fst (pipeline_run self w (qc_schema c requirements (content_type self))) =
      fst (pipeline_run self w' (qc_schema c requirements (content_type self)))"
  shows "fst (evaluate_content self w c requirements) = fst (evaluate_content self w' c requirements)"
proof -
  let ?src = "qc_schema c requirements (content_type self)"
  obtain out v where a: "pipeline_run self w ?src = (out, v)" by (cases "pipeline_run self w ?src")
  obtain out' v' where b: "pipeline_run self w' ?src = (out', v')" by (cases "pipeline_run self w' ?src")
  from assms a b have "out' = out" by simp
  with a b show ?thesis
    by (cases out) (simp_all add: evaluate_content_def Let_def)
qed

text \<open>
  Claim C9. With a judge whose answer does not depend on the state of the world (the same
  label and explanation whatever was called before), two runs of the quality pipeline on
  the same content and requirements give the same execution result, keys and values, and
  two invocations of \<^verbatim>\<open>evaluate_content\<close> return the same dict. This holds for
  every key scheme.
\<close>

theorem deterministic_judge_same_result:
  assumes det: "\<And>w w' u ctx. fst (judge w u ctx) = fst (judge w' u ctx)"
  shows "fst (run keys judge create_pipeline w (qc_schema c requirements ctype)) =
       fst (run keys judge create_pipeline w' (qc_schema c requirements ctype)) \<and>
     fst (evaluate_content (init keys judge client ctype n) w c requirements) =
       fst (evaluate_content (init keys judge client ctype n) w' c requirements)"
proof
  show "fst (run keys judge create_pipeline w (qc_schema c requirements ctype)) =
       fst (run keys judge create_pipeline w' (qc_schema c requirements ctype))"
    by (rule run_deterministic [where judge = judge, OF det])
  have "fst (pipeline_run (init keys judge client ctype n) w
        (qc_schema c requirements (content_type (init keys judge client ctype n)))) =
      fst (pipeline_run (init keys judge client ctype n) w'
        (qc_schema c requirements (content_type (init keys judge client ctype n))))"
    using run_of_deterministic [where judge = judge and keys = keys and p = create_pipeline
        and w = w and w' = w', OF det]
    by (simp add: init_def)
  then show "fst (evaluate_content (init keys judge client ctype n) w c requirements) =
       fst (evaluate_content (init keys judge client ctype n) w' c requirements)"
    by (rule evaluate_content_depends_on_run)
qed

lemma create_pipeline_fields:
  "pipeline_name create_pipeline = ''QualityControl''"
  "stages create_pipeline = [Layer [quality_judge]]"
  by (simp_all add: create_pipeline_def then_stage_def Pipeline_def)

lemma quality_judge_fields:
  "unit_name quality_judge = ''QualityJudge''" "produces_explanation quality_judge"
  by (simp_all add: quality_judge_def CategoricalJudgeUnit_def)

lemma pass_judge_run:
  "run literal_keys pass_judge create_pipeline w src =
     (\<lparr>entries = [base_path @ ''_choice'' \<mapsto> ''pass'', base_path @ ''_explanation'' \<mapsto> ''complete''],
       ran_ok = [base_path], ran_failed = []\<rparr>, Suc w)"
  by (simp add: run_def create_pipeline_fields literal_keys_def pass_judge_def named_judge_def
      quality_judge_fields record_unit_def empty_result_def explanation_of_def)

theorem deterministic_judge_same_result_witness:
  "fst (run literal_keys pass_judge create_pipeline 0 (qc_schema ''draft'' ''req'' ''text'')) =
     fst (run literal_keys pass_judge create_pipeline 1 (qc_schema ''draft'' ''req'' ''text'')) \<and>
   fst (evaluate_content (init literal_keys pass_judge (constant_client Raised) ''text'' 3)
         0 ''draft'' ''req'') =
     fst (evaluate_content (init literal_keys pass_judge (constant_client Raised) ''text'' 3)
         1 ''draft'' ''req'') \<and>
   evaluate_content (init literal_keys pass_judge (constant_client Raised) ''text'' 3)
       0 ''draft'' ''req'' =
     (Some \<lparr>verdict = ''pass'', explanation = ''complete'', content = ''draft''\<rparr>, 1) \<and>
   snd (evaluate_content (init literal_keys pass_judge (constant_client Raised) ''text'' 3)
       0 ''draft'' ''req'') = 1"
proof -
  have det: "fst (pass_judge w u ctx) = fst (pass_judge w' u ctx)" for w w' u ctx
    by (simp add: pass_judge_def named_judge_def split: option.splits)
  have first: "evaluate_content (init literal_keys pass_judge (constant_client Raised) ''text'' 3)
      0 ''draft'' ''req'' =
     (Some \<lparr>verdict = ''pass'', explanation = ''complete'', content = ''draft''\<rparr>, 1)"
    by (simp add: evaluate_content_def init_def run_of_def pass_judge_run dict_get_def)
  from deterministic_judge_same_result [where judge = pass_judge and keys = literal_keys
      and w = 0 and w' = 1
      and c = "''draft''" and requirements = "''req''" and ctype = "''text''"
      and client = "constant_client Raised" and n = 3, OF det] first
  show ?thesis by simp
qed

lemma create_evaluation_pipeline_fields:
  "pipeline_name create_evaluation_pipeline = ''QCEvaluator''"
  "stages create_evaluation_pipeline = [Layer [meta_judge], Layer [failure_analyzer]]"
  by (simp_all add: create_evaluation_pipeline_def then_stage_def Pipeline_def)

lemma run_evaluation_pipeline:
  assumes s1: "judge w meta_judge \<lparr>source = src, previous = []\<rparr> = (out1, w1)"
    and s2: "judge w1 failure_analyzer \<lparr>source = src, previous = explanation_of out1\<rparr> = (out2, w2)"
  shows "run keys judge create_evaluation_pipeline w src =
     (record_unit (keys ''QCEvaluator'' 1 (Layer [failure_analyzer]) failure_analyzer)
        failure_analyzer out2
        (record_unit (keys ''QCEvaluator'' 0 (Layer [meta_judge]) meta_judge)
           meta_judge out1 empty_result), w2)"
  by (simp add: run_def create_evaluation_pipeline_fields s1 s2)

lemma record_unit_ran:
  "base \<in> set (ran_ok (record_unit base u out res) @ ran_failed (record_unit base u out res))"
  by (cases out) (simp_all add: record_unit_def)

lemma record_unit_entries:
  assumes "produces_explanation u"
  shows "entries (record_unit base u (Judged l e) res) (base @ ''_choice'') = Some l"
    and "entries (record_unit base u (Judged l e) res) (base @ ''_explanation'') = Some e"
  using assms by (simp_all add: record_unit_def)

lemma evaluate_qc_system_reads:
  assumes "run keys judge create_evaluation_pipeline w (evaluator_schema c a d r) = (res, w2)"
  shows "evaluate_qc_system (evaluator_init keys judge) w c a d r =
     (Some \<lparr>meta_evaluation_verdict = dict_get (entries res)
               (evaluator_base_path @ ''[0].unit[CategoricalJudge MetaJudge]_choice'') [],
             meta_evaluation_explanation = dict_get (entries res)
               (evaluator_base_path @ ''[0].unit[CategoricalJudge MetaJudge]_explanation'') [],
             failure_analysis_type = dict_get (entries res)
               (evaluator_base_path @ ''[1].unit[CategoricalJudge FailureAnalyzer]_choice'') [],
             failure_analysis_explanation = dict_get (entries res)
               (evaluator_base_path @ ''[1].unit[CategoricalJudge FailureAnalyzer]_explanation'') []\<rparr>,
      w2)"
  using assms by (simp add: evaluate_qc_system_def evaluator_init_def run_of_def Let_def)

text \<open>
  Claim C2. On the pipeline that \<^verbatim>\<open>create_evaluation_pipeline\<close> composes, and
  whatever the first stage (MetaJudge) answers, ``reliable'' or not, or a failure, under
  every key scheme:
  \<^item> the executor runs the second stage (FailureAnalyzer): the unit is asked in the world
    the first stage leaves, and it is in the bookkeeping of the result;
  \<^item> when the second stage answers, its label and explanation are in the result map
    under its key with the two suffixes;
  \<^item> \<^verbatim>\<open>evaluate_qc_system\<close> returns a report, never \<^verbatim>\<open>None\<close>, whose
    failure-analysis type and explanation are read from the result map at the two keys
    the caller wrote out, without a look at the meta verdict;
  \<^item> when the key the executor builds for the unit is the one the caller wrote out, the
    report holds the label and explanation of the second stage.
\<close>

theorem failure_analysis_always_runs:
  assumes s1: "judge w meta_judge
        \<lparr>source = evaluator_schema c a d r, previous = []\<rparr> = (out1, w1)"
    and s2: "judge w1 failure_analyzer
        \<lparr>source = evaluator_schema c a d r, previous = explanation_of out1\<rparr> = (out2, w2)"
  shows "\<exists>res report.
      run keys judge create_evaluation_pipeline w (evaluator_schema c a d r) = (res, w2) \<and>
      keys ''QCEvaluator'' 1 (Layer [failure_analyzer]) failure_analyzer
        \<in> set (ran_ok res @ ran_failed res) \<and>
      (\<forall>l e. out2 = Judged l e \<longrightarrow>
         entries res (keys ''QCEvaluator'' 1 (Layer [failure_analyzer]) failure_analyzer
           @ ''_choice'') = Some l \<and>
         entries res (keys ''QCEvaluator'' 1 (Layer [failure_analyzer]) failure_analyzer
           @ ''_explanation'') = Some e) \<and>
      evaluate_qc_system (evaluator_init keys judge) w c a d r = (Some report, w2) \<and>
      failure_analysis_type report = dict_get (entries res)
        (evaluator_base_path @ ''[1].unit[CategoricalJudge FailureAnalyzer]_choice'') [] \<and>
      failure_analysis_explanation report = dict_get (entries res)
        (evaluator_base_path @ ''[1].unit[CategoricalJudge FailureAnalyzer]_explanation'') [] \<and>
      (\<forall>l e. out2 = Judged l e \<and>
           keys ''QCEvaluator'' 1 (Layer [failure_analyzer]) failure_analyzer =
             evaluator_base_path @ ''[1].unit[CategoricalJudge FailureAnalyzer]'' \<longrightarrow>
         failure_analysis_type report = l \<and> failure_analysis_explanation report = e)"
proof -
  let ?k2 = "keys ''QCEvaluator'' 1 (Layer [failure_analyzer]) failure_analyzer"
  let ?res1 = "record_unit (keys ''QCEvaluator'' 0 (Layer [meta_judge]) meta_judge)
      meta_judge out1 empty_result"
  let ?res = "record_unit ?k2 failure_analyzer out2 ?res1"
  let ?kc = "evaluator_base_path @ ''[1].unit[CategoricalJudge FailureAnalyzer]_choice''"
  let ?ke = "evaluator_base_path @ ''[1].unit[CategoricalJudge FailureAnalyzer]_explanation''"
  let ?report = "\<lparr>meta_evaluation_verdict = dict_get (entries ?res)
               (evaluator_base_path @ ''[0].unit[CategoricalJudge MetaJudge]_choice'') [],
             meta_evaluation_explanation = dict_get (entries ?res)
               (evaluator_base_path @ ''[0].unit[CategoricalJudge MetaJudge]_explanation'') [],
             failure_analysis_type = dict_get (entries ?res) ?kc [],
             failure_analysis_explanation = dict_get (entries ?res) ?ke []\<rparr>"
  have pe: "produces_explanation failure_analyzer"
    by (simp add: failure_analyzer_def CategoricalJudgeUnit_def)
  have run: "run keys judge create_evaluation_pipeline w (evaluator_schema c a d r) = (?res, w2)"
    by (rule run_evaluation_pipeline [OF s1 s2])
  have ran: "?k2 \<in> set (ran_ok ?res @ ran_failed ?res)"
    by (rule record_unit_ran)
  have ent: "entries ?res (?k2 @ ''_choice'') = Some l \<and> entries ?res (?k2 @ ''_explanation'') = Some e"
    if "out2 = Judged l e" for l e
    unfolding that using record_unit_entries [OF pe] by blast
  have ev: "evaluate_qc_system (evaluator_init keys judge) w c a d r = (Some ?report, w2)"
    by (rule evaluate_qc_system_reads [OF run])
  have ft: "failure_analysis_type ?report = dict_get (entries ?res) ?kc []"
    and fe: "failure_analysis_explanation ?report = dict_get (entries ?res) ?ke []"
    by simp_all
  have agree: "failure_analysis_type ?report = l \<and> failure_analysis_explanation ?report = e"
    if o: "out2 = Judged l e"
      and k: "?k2 = evaluator_base_path @ ''[1].unit[CategoricalJudge FailureAnalyzer]''" for l e
  proof -
    have "?k2 @ ''_choice'' = ?kc" "?k2 @ ''_explanation'' = ?ke"
      unfolding k by simp_all
    with ent [OF o] have "entries ?res ?kc = Some l" "entries ?res ?ke = Some e"
      by simp_all
    then show ?thesis
      by (simp add: dict_get_def)
  qed
  from run ran ent ev ft fe agree show ?thesis
    by (intro exI [of _ ?res] exI [of _ ?report]) blast
qed


theorem failure_analysis_always_runs_witness:
  "(\<exists>res report.
      run dotted_keys reliable_judge create_evaluation_pipeline 0
        (evaluator_schema ''content'' ''assessment'' ''pass'' ''req'') = (res, 2) \<and>
      dotted_keys ''QCEvaluator'' 1 (Layer [failure_analyzer]) failure_analyzer
        \<in> set (ran_ok res @ ran_failed res) \<and>
      entries res (dotted_keys ''QCEvaluator'' 1 (Layer [failure_analyzer]) failure_analyzer
        @ ''_choice'') = Some ''random'' \<and>
      entries res (dotted_keys ''QCEvaluator'' 1 (Layer [failure_analyzer]) failure_analyzer
        @ ''_explanation'') = Some ''no pattern'' \<and>
      evaluate_qc_system (evaluator_init dotted_keys reliable_judge) 0
        ''content'' ''assessment'' ''pass'' ''req'' = (Some report, 2)) \<and>
   (\<exists>res report.
      run literal_keys reliable_judge create_evaluation_pipeline 0
        (evaluator_schema ''content'' ''assessment'' ''pass'' ''req'') = (res, 2) \<and>
      evaluate_qc_system (evaluator_init literal_keys reliable_judge) 0
        ''content'' ''assessment'' ''pass'' ''req'' = (Some report, 2) \<and>
      failure_analysis_type report = ''random'' \<and>
      failure_analysis_explanation report = ''no pattern'')"
proof -
  let ?src = "evaluator_schema ''content'' ''assessment'' ''pass'' ''req''"
  have s1: "reliable_judge 0 meta_judge \<lparr>source = ?src, previous = []\<rparr> =
      (Judged ''reliable'' ''sound'', 1)"
    by (simp add: reliable_judge_def named_judge_def meta_judge_def CategoricalJudgeUnit_def)
  have s2: "reliable_judge 1 failure_analyzer
      \<lparr>source = ?src, previous = explanation_of (Judged ''reliable'' ''sound'')\<rparr> =
      (Judged ''random'' ''no pattern'', 2)"
    by (simp add: reliable_judge_def named_judge_def failure_analyzer_def CategoricalJudgeUnit_def)
  have k: "literal_keys ''QCEvaluator'' 1 (Layer [failure_analyzer]) failure_analyzer =
      evaluator_base_path @ ''[1].unit[CategoricalJudge FailureAnalyzer]''"
    by (simp add: literal_keys_def failure_analyzer_def CategoricalJudgeUnit_def)
  from failure_analysis_always_runs [OF s1 s2, where keys = dotted_keys]
  have a: "\<exists>res report.
      run dotted_keys reliable_judge create_evaluation_pipeline 0 ?src = (res, 2) \<and>
      dotted_keys ''QCEvaluator'' 1 (Layer [failure_analyzer]) failure_analyzer
        \<in> set (ran_ok res @ ran_failed res) \<and>
      entries res (dotted_keys ''QCEvaluator'' 1 (Layer [failure_analyzer]) failure_analyzer
        @ ''_choice'') = Some ''random'' \<and>
      entries res (dotted_keys ''QCEvaluator'' 1 (Layer [failure_analyzer]) failure_analyzer
        @ ''_explanation'') = Some ''no pattern'' \<and>
      evaluate_qc_system (evaluator_init dotted_keys reliable_judge) 0
        ''content'' ''assessment'' ''pass'' ''req'' = (Some report, 2)"
    by blast
  from failure_analysis_always_runs [OF s1 s2, where keys = literal_keys] k
  have b: "\<exists>res report.
      run literal_keys reliable_judge create_evaluation_pipeline 0 ?src = (res, 2) \<and>
      evaluate_qc_system (evaluator_init literal_keys reliable_judge) 0
        ''content'' ''assessment'' ''pass'' ''req'' = (Some report, 2) \<and>
      failure_analysis_type report = ''random'' \<and>
      failure_analysis_explanation report = ''no pattern''"
    by blast
  from a b show ?thesis by (rule conjI)
qed

end
